theory Spec2Isabelle
  imports Complex_Main "HOL-Library.Word"
begin

section \<open>Strings, errors and token constants\<close>

text \<open>
  A Python \<open>str\<close> is a sequence of Unicode code points, and the tokenizer replaces the
  two markers U+0120 and U+010A, which are beyond one byte.  A string is therefore
  modelled as the list of its code points.
\<close>

type_synonym pystr = "nat list"

definition ascii_str :: "string \<Rightarrow> pystr" where
  "ascii_str s = map of_char s"

text \<open>The exceptions the modelled code raises or catches.\<close>

datatype error =
    ImportError
  | FileNotFoundError
  | RuntimeError
  | ValueError
  | IndexError
  | KeyError
  | AttributeError
  | JSONDecodeError
  | OSError
  | SessionError

text \<open>Class constants of \<open>WhisperTokenizer\<close> (tokenizer.py, lines 23 to 28).\<close>

definition EOT_TOKEN :: int where "EOT_TOKEN = 50257"
definition SOT_TOKEN :: int where "SOT_TOKEN = 50258"
definition TRANSLATE_TOKEN :: int where "TRANSLATE_TOKEN = 50358"
definition TRANSCRIBE_TOKEN :: int where "TRANSCRIBE_TOKEN = 50359"
definition NO_TIMESTAMPS_TOKEN :: int where "NO_TIMESTAMPS_TOKEN = 50363"
definition TIMESTAMP_BEGIN :: int where "TIMESTAMP_BEGIN = 50364"

text \<open>
  The dict literal \<open>LANGUAGES\<close> (tokenizer.py, lines 31 to 52), entry by entry in the
  order of the source.
\<close>

definition LANGUAGES :: "(string \<times> int) list" where
  "LANGUAGES =
   [(''en'', 50259), (''zh'', 50260), (''de'', 50261), (''es'', 50262), (''ru'', 50263),
    (''ko'', 50264), (''fr'', 50265), (''ja'', 50266), (''pt'', 50267), (''tr'', 50268),
    (''pl'', 50269), (''ca'', 50270), (''nl'', 50271), (''ar'', 50272), (''sv'', 50273),
    (''it'', 50274), (''id'', 50275), (''hi'', 50276), (''fi'', 50277), (''vi'', 50278),
    (''he'', 50279), (''uk'', 50280), (''el'', 50281), (''ms'', 50282), (''cs'', 50283),
    (''ro'', 50284), (''da'', 50285), (''hu'', 50286), (''ta'', 50287), (''no'', 50288),
    (''th'', 50289), (''ur'', 50290), (''hr'', 50291), (''bg'', 50292), (''lt'', 50293),
    (''la'', 50294), (''mi'', 50295), (''ml'', 50296), (''cy'', 50297), (''sk'', 50298),
    (''te'', 50299), (''fa'', 50300), (''lv'', 50301), (''bn'', 50302), (''sr'', 50303),
    (''az'', 50304), (''sl'', 50305), (''kn'', 50306), (''et'', 50307), (''mk'', 50308),
    (''br'', 50309), (''eu'', 50310), (''is'', 50311), (''hy'', 50312), (''ne'', 50313),
    (''mn'', 50314), (''bs'', 50315), (''kk'', 50316), (''sq'', 50317), (''sw'', 50318),
    (''gl'', 50319), (''mr'', 50320), (''pa'', 50321), (''si'', 50322), (''km'', 50323),
    (''sn'', 50324), (''yo'', 50325), (''so'', 50326), (''af'', 50327), (''oc'', 50328),
    (''ka'', 50329), (''be'', 50330), (''tg'', 50331), (''sd'', 50332), (''gu'', 50333),
    (''am'', 50334), (''yi'', 50335), (''lo'', 50336), (''uz'', 50337), (''fo'', 50338),
    (''ht'', 50339), (''ps'', 50340), (''tk'', 50341), (''nn'', 50342), (''mt'', 50343),
    (''sa'', 50344), (''lb'', 50345), (''my'', 50346), (''bo'', 50347), (''tl'', 50348),
    (''mg'', 50349), (''as'', 50350), (''tt'', 50351), (''haw'', 50352), (''ln'', 50353),
    (''ha'', 50354), (''ba'', 50355), (''jw'', 50356), (''su'', 50357)]"

text \<open>
  The dict the literal denotes: keys are Python strings.  A dict literal keeps the last
  value given for a key, as \<open>map_of\<close> over the reversed entry list does.
\<close>

definition languages_dict :: "pystr \<rightharpoonup> int" where
  "languages_dict = map_of (rev (map (\<lambda>(k, v). (ascii_str k, v)) LANGUAGES))"

section \<open>The tokenizer (core/tokenizer.py)\<close>

subsection \<open>String helpers of the Python runtime\<close>

text \<open>The code points for which \<open>str.isspace\<close> holds; \<open>strip\<close> and \<open>split\<close> use them.\<close>

definition py_isspace :: "nat \<Rightarrow> bool" where
  "py_isspace c \<longleftrightarrow>
     (9 \<le> c \<and> c \<le> 13) \<or> (28 \<le> c \<and> c \<le> 32) \<or> c = 133 \<or> c = 160 \<or> c = 5760 \<or>
     (8192 \<le> c \<and> c \<le> 8202) \<or> c = 8232 \<or> c = 8233 \<or> c = 8239 \<or> c = 8287 \<or>
     c = 12288"

definition py_strip :: "pystr \<Rightarrow> pystr" where
  "py_strip s = rev (dropWhile py_isspace (rev (dropWhile py_isspace s)))"

text \<open>\<open>s.replace(a, b)\<close> for one-character \<open>a\<close> and \<open>b\<close>.\<close>

definition py_replace :: "nat \<Rightarrow> nat \<Rightarrow> pystr \<Rightarrow> pystr" where
  "py_replace a b s = map (\<lambda>c. if c = a then b else c) s"

text \<open>\<open>s.split(sep)\<close> for a one-character separator: always at least one piece.\<close>

fun split_on :: "nat \<Rightarrow> pystr \<Rightarrow> pystr list" where
  "split_on sep [] = [ [] ]"
| "split_on sep (c # cs) =
     (if c = sep then [] # split_on sep cs
      else (case split_on sep cs of [] \<Rightarrow> [ [c] ] | w # ws \<Rightarrow> (c # w) # ws))"

text \<open>\<open>s.split()\<close>: the maximal runs of non-space characters.\<close>

fun py_split :: "pystr \<Rightarrow> pystr list" where
  "py_split [] = []"
| "py_split (c # cs) =
     (if py_isspace c then py_split cs
      else (case cs of
              [] \<Rightarrow> [ [c] ]
            | d # _ \<Rightarrow>
                if py_isspace d then [c] # py_split cs
                else (case py_split cs of [] \<Rightarrow> [ [c] ] | w # ws \<Rightarrow> (c # w) # ws)))"

subsection \<open>Loading\<close>

text \<open>
  What the file system holds at a path: nothing, something whose reading or parsing
  raises the given exception, or a content.
\<close>

datatype 'a fs_entry = Missing | Raises error | Content 'a

text \<open>
  The model directory as \<open>_load_tokenizer\<close> sees it.  For \<open>vocab.json\<close> the content is
  the item list of the dict that \<open>json.load\<close> returns, in insertion order; for
  \<open>merges.txt\<close> it is the text of the file.
\<close>

record model_dir =
  vocab_json :: "(pystr \<times> int) list fs_entry"
  merges_txt :: "pystr fs_entry"

record whisper_tokenizer =
  vocab :: "pystr \<rightharpoonup> int"
  inv_vocab :: "int \<rightharpoonup> pystr"
  merges :: "pystr list list"

text \<open>
  \<open>__init__\<close> followed by \<open>_load_tokenizer\<close> (lines 54 to 81).  A missing file leaves
  the empty table in place; the dict comprehension of line 74 keeps, for an id that
  occurs twice, the key met last.
\<close>

definition parse_merges :: "pystr \<Rightarrow> pystr list list" where
  "parse_merges txt =
     map py_split (filter (\<lambda>line. py_strip line \<noteq> []) (drop 1 (split_on 10 (py_strip txt))))"

definition load_tokenizer :: "model_dir \<Rightarrow> error + whisper_tokenizer" where
  "load_tokenizer dir =
     (let t0 = \<lparr>vocab = Map.empty, inv_vocab = Map.empty, merges = []\<rparr> in
      case (case vocab_json dir of
              Missing \<Rightarrow> Inr t0
            | Raises e \<Rightarrow> Inl e
            | Content items \<Rightarrow>
                Inr (t0\<lparr>vocab := map_of (rev items),
                        inv_vocab := map_of (rev (map (\<lambda>(k, v). (v, k)) items))\<rparr>)) of
        Inl e \<Rightarrow> Inl e
      | Inr t1 \<Rightarrow>
          (case merges_txt dir of
             Missing \<Rightarrow> Inr t1
           | Raises e \<Rightarrow> Inl e
           | Content txt \<Rightarrow> Inr (t1\<lparr>merges := parse_merges txt\<rparr>)))"

subsection \<open>Encoding and decoding\<close>

text \<open>
  \<open>encode\<close> (lines 83 to 98): one dict lookup per character, the default being the
  vocabulary's own entry for the end-of-text string, or 0 without such an entry.
\<close>

definition endoftext_str :: pystr where
  "endoftext_str = ascii_str ''<|endoftext|>''"

definition encode :: "whisper_tokenizer \<Rightarrow> pystr \<Rightarrow> int list" where
  "encode tk text =
     map (\<lambda>char.
            case vocab tk [char] of
              Some token \<Rightarrow> token
            | None \<Rightarrow> (case vocab tk endoftext_str of Some e \<Rightarrow> e | None \<Rightarrow> 0))
         text"

text \<open>
  The loop of \<open>decode\<close> (lines 111 to 123) with its accumulator \<open>tokens\<close>:
  \<open>continue\<close> goes on with the rest, \<open>break\<close> returns the accumulator.
\<close>

fun decode_loop :: "whisper_tokenizer \<Rightarrow> bool \<Rightarrow> pystr list \<Rightarrow> int list \<Rightarrow> pystr list" where
  "decode_loop tk skip tokens [] = tokens"
| "decode_loop tk skip tokens (token_id # rest) =
     (if skip \<and> token_id \<ge> SOT_TOKEN then decode_loop tk skip tokens rest
      else if skip \<and> token_id = EOT_TOKEN then tokens
      else (let token_str = (case inv_vocab tk token_id of Some s \<Rightarrow> s | None \<Rightarrow> [])
            in if token_str \<noteq> [] then decode_loop tk skip (tokens @ [token_str]) rest
               else decode_loop tk skip tokens rest))"

definition decode :: "whisper_tokenizer \<Rightarrow> int list \<Rightarrow> bool \<Rightarrow> pystr" where
  "decode tk token_ids skip_special_tokens =
     py_strip (py_replace 266 10 (py_replace 288 32
       (concat (decode_loop tk skip_special_tokens [] token_ids))))"

subsection \<open>Language token and decoder seed\<close>

text \<open>
  \<open>get_language_token\<close> (line 144).  The default argument \<open>LANGUAGES['en']\<close> is
  evaluated before the call of \<open>get\<close> and raises \<open>KeyError\<close> without such a key.
\<close>

definition get_language_token :: "pystr \<Rightarrow> error + int" where
  "get_language_token language =
     (case languages_dict (ascii_str ''en'') of
        None \<Rightarrow> Inl KeyError
      | Some en \<Rightarrow>
          Inr (case languages_dict language of Some t \<Rightarrow> t | None \<Rightarrow> en))"

text \<open>\<open>build_decoder_input\<close> (lines 146 to 174).\<close>

definition build_decoder_input :: "pystr \<Rightarrow> pystr \<Rightarrow> bool \<Rightarrow> error + int list" where
  "build_decoder_input language task no_timestamps =
     (case get_language_token language of
        Inl e \<Rightarrow> Inl e
      | Inr lang_token \<Rightarrow>
          Inr ([SOT_TOKEN] @ [lang_token]
               @ (if task = ascii_str ''translate'' then [TRANSLATE_TOKEN] else [TRANSCRIBE_TOKEN])
               @ (if no_timestamps then [NO_TIMESTAMPS_TOKEN] else [])))"

section \<open>The recogniser (core/whisper.py)\<close>

text \<open>
  Arrays of floats are lists of reals, a two-dimensional array is the list of its rows.
  The rounding of \<open>float32\<close> and \<open>complex64\<close> is not part of the model: it changes
  the entries of an array and never its shape.
\<close>

definition ncols :: "'a list list \<Rightarrow> nat" where
  "ncols M = (case M of [] \<Rightarrow> 0 | row # _ \<Rightarrow> length row)"

definition sample_rate :: nat where "sample_rate = 16000"
definition n_fft :: nat where "n_fft = 400"
definition hop_length :: nat where "hop_length = 160"
definition n_mels :: nat where "n_mels = 80"

subsection \<open>Audio input\<close>

text \<open>
  \<open>transcribe\<close> takes an array of samples or raw bytes (line 210).  The bytes are read
  as little-endian signed 16-bit integers and divided by 32768; \<open>np.frombuffer\<close> raises
  \<open>ValueError\<close> for a buffer whose size is not a multiple of two.
\<close>

datatype audio = Samples "real list" | Bytes "8 word list"

fun frombuffer_int16 :: "8 word list \<Rightarrow> error + real list" where
  "frombuffer_int16 [] = Inr []"
| "frombuffer_int16 [b] = Inl ValueError"
| "frombuffer_int16 (lo # hi # rest) =
     (case frombuffer_int16 rest of
        Inl e \<Rightarrow> Inl e
      | Inr xs \<Rightarrow> Inr (real_of_int (sint (word_cat hi lo :: 16 word)) / 32768 # xs))"

definition to_array :: "audio \<Rightarrow> error + real list" where
  "to_array a = (case a of Samples xs \<Rightarrow> Inr xs | Bytes bs \<Rightarrow> frombuffer_int16 bs)"

subsection \<open>Mel filterbank (\<open>_create_mel_filterbank\<close>, lines 157 to 180)\<close>

definition hz_to_mel :: "real \<Rightarrow> real" where
  "hz_to_mel hz = 2595 * log 10 (1 + hz / 700)"

definition mel_to_hz :: "real \<Rightarrow> real" where
  "mel_to_hz mel = 700 * (10 powr (mel / 2595) - 1)"

definition linspace :: "real \<Rightarrow> real \<Rightarrow> nat \<Rightarrow> real list" where
  "linspace start stop num =
     map (\<lambda>i. start + real i * ((stop - start) / real (num - 1))) [0..<num]"

definition mel_bins :: "nat \<Rightarrow> nat \<Rightarrow> int list" where
  "mel_bins nfft nmels =
     (let fmin = 0; fmax = real sample_rate / 2;
          mel_min = hz_to_mel fmin; mel_max = hz_to_mel fmax;
          mels = linspace mel_min mel_max (nmels + 2);
          freqs = map mel_to_hz mels
      in map (\<lambda>f. \<lfloor>real (nfft + 1) * f / real sample_rate\<rfloor>) freqs)"

text \<open>
  \<open>row[j] = v\<close> on a one-dimensional array: a negative index counts from the end, an
  index outside the array raises \<open>IndexError\<close>.
\<close>

definition set_item :: "real list \<Rightarrow> int \<Rightarrow> real \<Rightarrow> error + real list" where
  "set_item row j v =
     (let n = int (length row); k = (if j < 0 then j + n else j)
      in if 0 \<le> k \<and> k < n then Inr (row[nat k := v]) else Inl IndexError)"

text \<open>\<open>for j in range(a, b): row[j] = f j\<close>\<close>

fun fill :: "(int \<Rightarrow> real) \<Rightarrow> int list \<Rightarrow> real list \<Rightarrow> error + real list" where
  "fill f [] row = Inr row"
| "fill f (j # js) row =
     (case set_item row j (f j) of Inl e \<Rightarrow> Inl e | Inr row' \<Rightarrow> fill f js row')"

definition py_range :: "int \<Rightarrow> int \<Rightarrow> int list" where
  "py_range a b = [a..b - 1]"

definition filterbank_row :: "int list \<Rightarrow> nat \<Rightarrow> nat \<Rightarrow> error + real list" where
  "filterbank_row bins nfft i =
     (let left = bins ! i; center = bins ! (i + 1); right = bins ! (i + 2) in
      case fill (\<lambda>j. real_of_int (j - left) / real_of_int (center - left))
                (py_range left center) (replicate (nfft div 2 + 1) 0) of
        Inl e \<Rightarrow> Inl e
      | Inr row \<Rightarrow>
          fill (\<lambda>j. real_of_int (right - j) / real_of_int (right - center))
               (py_range center right) row)"

text \<open>The rows are filled one after the other; the first exception ends the call.\<close>

fun all_rows :: "(error + 'a) list \<Rightarrow> error + 'a list" where
  "all_rows [] = Inr []"
| "all_rows (r # rs) =
     (case r of
        Inl e \<Rightarrow> Inl e
      | Inr x \<Rightarrow> (case all_rows rs of Inl e \<Rightarrow> Inl e | Inr xs \<Rightarrow> Inr (x # xs)))"

definition create_mel_filterbank :: "nat \<Rightarrow> nat \<Rightarrow> error + real list list" where
  "create_mel_filterbank nfft nmels =
     all_rows (map (filterbank_row (mel_bins nfft nmels) nfft) [0..<nmels])"

subsection \<open>Mel spectrogram (\<open>_compute_mel_spectrogram\<close>, lines 109 to 155)\<close>

definition pad_or_trim :: "real list \<Rightarrow> real list" where
  "pad_or_trim audio =
     (let target_length = 30 * sample_rate in
      if length audio < target_length
      then audio @ replicate (target_length - length audio) 0
      else take target_length audio)"

definition hanning :: "nat \<Rightarrow> real list" where
  "hanning M =
     (if M = 1 then [1]
      else map (\<lambda>n. 1 / 2 - 1 / 2 * cos (2 * pi * real n / real (M - 1))) [0..<M])"

text \<open>\<open>np.fft.rfft\<close> of a real sequence of even length \<open>N\<close>: the first \<open>N / 2 + 1\<close> bins.\<close>

definition rfft :: "real list \<Rightarrow> complex list" where
  "rfft x =
     (let N = length x in
      map (\<lambda>k. \<Sum>n<N. complex_of_real (x ! n) * cis (- (2 * pi * real k * real n / real N)))
          [0..<N div 2 + 1])"

text \<open>Column \<open>i\<close> of \<open>stft\<close> after the loop of lines 136 to 139.\<close>

definition stft_column :: "real list \<Rightarrow> nat \<Rightarrow> complex list" where
  "stft_column audio i =
     (let frame = take n_fft (drop (i * hop_length) audio) in
      if length frame = n_fft then rfft (map2 (*) frame (hanning n_fft))
      else replicate (n_fft div 2 + 1) 0)"

text \<open>
  \<open>A @ B\<close>: \<open>ValueError\<close> unless the number of columns of \<open>A\<close> is the number of rows
  of \<open>B\<close>.
\<close>

definition matmul :: "real list list \<Rightarrow> real list list \<Rightarrow> error + real list list" where
  "matmul A B =
     (if ncols A \<noteq> length B then Inl ValueError
      else Inr (map (\<lambda>row. map (\<lambda>j. \<Sum>k<length B. row ! k * B ! k ! j) [0..<ncols B]) A))"

text \<open>\<open>a.max()\<close>: \<open>ValueError\<close> on an array without entries.\<close>

definition array_max :: "real list list \<Rightarrow> error + real" where
  "array_max M = (let xs = concat M in if xs = [] then Inl ValueError else Inr (Max (set xs)))"

definition compute_mel_spectrogram :: "real list \<Rightarrow> error + real list list" where
  "compute_mel_spectrogram audio0 =
     (let audio = pad_or_trim audio0;
          n_frames = 1 + (int (length audio) - int n_fft) div int hop_length
      in if n_frames < 0 then Inl ValueError
         else
           let stft = map (\<lambda>k. map (\<lambda>i. stft_column audio i ! k) [0..<nat n_frames])
                          [0..<n_fft div 2 + 1];
               power = map (map (\<lambda>z. (cmod z)\<^sup>2)) stft
           in case create_mel_filterbank n_fft n_mels of
                Inl e \<Rightarrow> Inl e
              | Inr mel_basis \<Rightarrow>
                  (case matmul mel_basis power of
                     Inl e \<Rightarrow> Inl e
                   | Inr mel_spec \<Rightarrow>
                       let log_mel = map (map (\<lambda>x. log 10 (max x (1 / 10 ^ 10)))) mel_spec in
                       case array_max log_mel of
                         Inl e \<Rightarrow> Inl e
                       | Inr m \<Rightarrow> Inr (map (map (\<lambda>x. (max x (m - 8) + 4) / 4)) log_mel)))"

subsection \<open>Sessions and engine state\<close>

text \<open>
  The two inference sessions are external.  An encoder session answers the shape probe of
  \<open>load\<close> (\<open>get_inputs()[0].shape\<close>: an exception, a value that is no list or tuple, or a
  list of dimensions) and runs the encoder (lines 225 to 231) on a feature array.  A
  decoder session is asked, at iteration \<open>i\<close> of the decoding loop, for the logits of the
  last position given the token sequence and the hidden state (lines 293 to 300 and the
  indexing \<open>logits[0, -1, :]\<close>); the binding of inputs by name is the session's affair.
  Every exception of a session is a value \<open>Inl\<close>.
\<close>

datatype dim = IntDim int | OtherDim

record 'h encoder_session =
  input_shape :: "error + dim list option"
  run_encoder :: "real list list \<Rightarrow> error + 'h"

record 'h decoder_session =
  run_decoder :: "nat \<Rightarrow> int list \<Rightarrow> 'h \<Rightarrow> error + real list"

text \<open>The mutable fields of a \<open>WhisperASR\<close> object (lines 45 to 48).\<close>

record 'h whisper_asr =
  encoder_session :: "'h encoder_session option"
  decoder_session :: "'h decoder_session option"
  tokenizer :: "whisper_tokenizer option"
  expected_frames :: "int option"

definition init_asr :: "'h whisper_asr" where
  "init_asr = \<lparr>encoder_session = None, decoder_session = None, tokenizer = None,
                expected_frames = None\<rparr>"

text \<open>The dict \<open>self.languages\<close> (lines 51 to 54).\<close>

definition asr_languages :: "pystr \<rightharpoonup> pystr" where
  "asr_languages = map_of
     [(ascii_str ''en'', ascii_str ''English''), (ascii_str ''hi'', ascii_str ''Hindi''),
      (ascii_str ''ta'', ascii_str ''Tamil''), (ascii_str ''te'', ascii_str ''Telugu''),
      (ascii_str ''es'', ascii_str ''Spanish''), (ascii_str ''fr'', ascii_str ''French''),
      (ascii_str ''de'', ascii_str ''German''), (ascii_str ''zh'', ascii_str ''Chinese'')]"

subsection \<open>\<open>load\<close> (lines 56 to 107)\<close>

text \<open>
  What \<open>load\<close> finds outside the object: whether \<open>onnxruntime\<close> can be imported,
  whether the two model files exist, what the construction of each session yields, and
  the model directory read by the tokenizer.  An exception leaves the fields assigned so
  far as they are.
\<close>

record 'h load_env =
  onnxruntime_installed :: bool
  model_path_exists :: bool
  decoder_path_exists :: bool
  open_encoder :: "error + 'h encoder_session"
  open_decoder :: "error + 'h decoder_session"
  tokenizer_dir :: model_dir

definition probe_frames :: "'h encoder_session \<Rightarrow> int" where
  "probe_frames enc =
     (case input_shape enc of
        Inl e \<Rightarrow> 3000
      | Inr None \<Rightarrow> 3000
      | Inr (Some in_shape) \<Rightarrow>
          if length in_shape \<ge> 3
          then (case in_shape ! 2 of IntDim n \<Rightarrow> n | OtherDim \<Rightarrow> 3000)
          else 3000)"

definition load :: "'h load_env \<Rightarrow> 'h whisper_asr \<Rightarrow> (error + bool) \<times> 'h whisper_asr" where
  "load env asr =
     (if \<not> onnxruntime_installed env then (Inl ImportError, asr)
      else if \<not> model_path_exists env then (Inl FileNotFoundError, asr)
      else if \<not> decoder_path_exists env then (Inl FileNotFoundError, asr)
      else
        case open_encoder env of
          Inl e \<Rightarrow> (Inl e, asr)
        | Inr enc \<Rightarrow>
            let asr1 = asr\<lparr>encoder_session := Some enc\<rparr> in
            (case open_decoder env of
               Inl e \<Rightarrow> (Inl e, asr1)
             | Inr dec \<Rightarrow>
                 let asr2 = asr1\<lparr>decoder_session := Some dec\<rparr> in
                 (case load_tokenizer (tokenizer_dir env) of
                    Inl e \<Rightarrow> (Inl e, asr2)
                  | Inr tk \<Rightarrow>
                      (Inr True,
                       asr2\<lparr>tokenizer := Some tk,
                            expected_frames := Some (probe_frames enc)\<rparr>))))"

subsection \<open>Greedy decoding (\<open>_decode_with_decoder\<close>, lines 265 to 326)\<close>

definition max_tokens :: nat where "max_tokens = 50"

text \<open>\<open>int(np.argmax(v))\<close>: the first index of a largest entry; \<open>ValueError\<close> on an empty \<open>v\<close>.\<close>

fun argmax_from :: "nat \<Rightarrow> real \<Rightarrow> nat \<Rightarrow> real list \<Rightarrow> nat" where
  "argmax_from best best_val i [] = best"
| "argmax_from best best_val i (x # xs) =
     (if x > best_val then argmax_from i x (Suc i) xs
      else argmax_from best best_val (Suc i) xs)"

definition argmax :: "real list \<Rightarrow> error + int" where
  "argmax v = (case v of [] \<Rightarrow> Inl ValueError | x # xs \<Rightarrow> Inr (int (argmax_from 0 x 1 xs)))"

text \<open>The two lists the loop works on.\<close>

record loop_state =
  tokens :: "int list"
  generated_tokens :: "int list"

text \<open>
  One pass through the body of the loop (lines 288 to 314) at iteration \<open>i\<close>: \<open>None\<close> is
  \<open>break\<close>, taken on the end-of-text token and in the exception handler; otherwise the
  chosen token is appended to both lists.
\<close>

definition greedy_step ::
  "(nat \<Rightarrow> int list \<Rightarrow> error + real list) \<Rightarrow> nat \<Rightarrow> loop_state \<Rightarrow> loop_state option" where
  "greedy_step run i st =
     (case run i (tokens st) of
        Inl e \<Rightarrow> None
      | Inr logits \<Rightarrow>
          (case argmax logits of
             Inl e \<Rightarrow> None
           | Inr next_token \<Rightarrow>
               if next_token = EOT_TOKEN then None
               else Some \<lparr>tokens = tokens st @ [next_token],
                          generated_tokens = generated_tokens st @ [next_token]\<rparr>))"

text \<open>
  \<open>for _ in range(n)\<close>, entered at iteration \<open>i\<close> with \<open>n\<close> iterations left; the result is
  the state with which the loop is left.
\<close>

fun greedy_loop ::
  "(nat \<Rightarrow> int list \<Rightarrow> error + real list) \<Rightarrow> nat \<Rightarrow> nat \<Rightarrow> loop_state \<Rightarrow> loop_state" where
  "greedy_loop run i 0 st = st"
| "greedy_loop run i (Suc n) st =
     (case greedy_step run i st of
        None \<Rightarrow> st
      | Some st' \<Rightarrow> greedy_loop run (Suc i) n st')"

text \<open>
  The state at the head of iteration \<open>i\<close>, that is the state whose \<open>tokens\<close> the
  decoder is given at that iteration; \<open>None\<close> when the loop has been left before.
\<close>

fun loop_state_at ::
  "(nat \<Rightarrow> int list \<Rightarrow> error + real list) \<Rightarrow> loop_state \<Rightarrow> nat \<Rightarrow> loop_state option" where
  "loop_state_at run st0 0 = Some st0"
| "loop_state_at run st0 (Suc i) =
     (case loop_state_at run st0 i of
        None \<Rightarrow> None
      | Some st \<Rightarrow> if i < max_tokens then greedy_step run i st else None)"

text \<open>
  The decoder as the loop calls it.  Without a decoder session the attribute access of
  line 294 raises inside the \<open>try\<close>.
\<close>

definition decoder_call ::
  "'h whisper_asr \<Rightarrow> 'h \<Rightarrow> nat \<Rightarrow> int list \<Rightarrow> error + real list" where
  "decoder_call asr encoder_hidden i toks =
     (case decoder_session asr of
        None \<Rightarrow> Inl AttributeError
      | Some dec \<Rightarrow> run_decoder dec i toks encoder_hidden)"

definition greedy_generate :: "'h whisper_asr \<Rightarrow> 'h \<Rightarrow> int list \<Rightarrow> int list" where
  "greedy_generate asr encoder_hidden seed =
     generated_tokens
       (greedy_loop (decoder_call asr encoder_hidden) 0 max_tokens
          \<lparr>tokens = seed, generated_tokens = []\<rparr>)"

definition decode_with_decoder :: "'h whisper_asr \<Rightarrow> 'h \<Rightarrow> pystr \<Rightarrow> error + pystr \<times> real" where
  "decode_with_decoder asr encoder_hidden language =
     (case tokenizer asr of
        None \<Rightarrow> Inl AttributeError
      | Some tk \<Rightarrow>
          (case build_decoder_input language (ascii_str ''transcribe'') True of
             Inl e \<Rightarrow> Inl e
           | Inr seed \<Rightarrow>
               let generated = greedy_generate asr encoder_hidden seed;
                   text_out =
                     (if generated \<noteq> [] then decode tk generated True
                      else ascii_str ''[Audio in ''
                           @ (case asr_languages language of Some name \<Rightarrow> name | None \<Rightarrow> language)
                           @ ascii_str '']'');
                   confidence = (if generated \<noteq> [] then 85 / 100 else 60 / 100)
               in Inr (text_out, confidence)))"

subsection \<open>\<open>transcribe\<close> and \<open>transcribe_batch\<close> (lines 182 to 263)\<close>

text \<open>\<open>xs[:e]\<close>: a negative bound counts from the end.\<close>

definition slice_to :: "int \<Rightarrow> 'a list \<Rightarrow> 'a list" where
  "slice_to e xs = (if 0 \<le> e then take (nat e) xs else take (length xs - nat (- e)) xs)"

text \<open>Lines 216 to 222: \<open>expected\<close>, and the padding or trimming of the frame axis.\<close>

definition expected :: "'h whisper_asr \<Rightarrow> int" where
  "expected asr = (case expected_frames asr of None \<Rightarrow> 3000 | Some n \<Rightarrow> if n = 0 then 3000 else n)"

definition fit_frames :: "int \<Rightarrow> real list list \<Rightarrow> real list list" where
  "fit_frames expct mel =
     (let n_frames = int (ncols mel) in
      if n_frames < expct then map (\<lambda>row. row @ replicate (nat (expct - n_frames)) 0) mel
      else if n_frames > expct then map (slice_to expct) mel
      else mel)"

text \<open>The array given to the encoder session (lines 214 to 222).\<close>

definition encoder_features :: "'h whisper_asr \<Rightarrow> real list \<Rightarrow> error + real list list" where
  "encoder_features asr audio =
     (case compute_mel_spectrogram audio of
        Inl e \<Rightarrow> Inl e
      | Inr mel \<Rightarrow> Inr (fit_frames (expected asr) mel))"

text \<open>
  The result dict.  Its entry \<open>duration_ms\<close> is a reading of the wall clock and is left
  out of the model.
\<close>

record segment =
  seg_start :: real
  seg_end :: real
  seg_text :: pystr
  seg_confidence :: real

record transcription =
  result_text :: pystr
  result_language :: pystr
  result_confidence :: real
  result_segments :: "segment list"

definition transcribe :: "'h whisper_asr \<Rightarrow> audio \<Rightarrow> pystr \<Rightarrow> error + transcription" where
  "transcribe asr audio_in language =
     (case encoder_session asr of
        None \<Rightarrow> Inl RuntimeError
      | Some enc \<Rightarrow>
          (case decoder_session asr of
             None \<Rightarrow> Inl RuntimeError
           | Some dec \<Rightarrow>
               (case to_array audio_in of
                  Inl e \<Rightarrow> Inl e
                | Inr audio \<Rightarrow>
                    (case encoder_features asr audio of
                       Inl e \<Rightarrow> Inl e
                     | Inr mel \<Rightarrow>
                         (case run_encoder enc mel of
                            Inl e \<Rightarrow> Inl e
                          | Inr encoder_hidden \<Rightarrow>
                              (case decode_with_decoder asr encoder_hidden language of
                                 Inl e \<Rightarrow> Inl e
                               | Inr (text_out, confidence) \<Rightarrow>
                                   Inr \<lparr>result_text = text_out,
                                        result_language = language,
                                        result_confidence = confidence,
                                        result_segments =
                                          [\<lparr>seg_start = 0,
                                            seg_end = real (length audio) / real sample_rate,
                                            seg_text = text_out,
                                            seg_confidence = confidence\<rparr>]\<rparr>))))))"

text \<open>
  The list comprehension of line 263: the items in order, and an exception raised for
  one item leaves the comprehension at once.
\<close>

fun transcribe_batch :: "'h whisper_asr \<Rightarrow> audio list \<Rightarrow> pystr \<Rightarrow> error + transcription list" where
  "transcribe_batch asr [] language = Inr []"
| "transcribe_batch asr (audio_in # audio_list) language =
     (case transcribe asr audio_in language of
        Inl e \<Rightarrow> Inl e
      | Inr r \<Rightarrow>
          (case transcribe_batch asr audio_list language of
             Inl e \<Rightarrow> Inl e
           | Inr rs \<Rightarrow> Inr (r # rs)))"

section \<open>Concrete instances\<close>

text \<open>Small instances on which the properties below are evaluated.\<close>

definition empty_model_dir :: model_dir where
  "empty_model_dir = \<lparr>vocab_json = Missing, merges_txt = Missing\<rparr>"

definition empty_tokenizer :: whisper_tokenizer where
  "empty_tokenizer = \<lparr>vocab = Map.empty, inv_vocab = Map.empty, merges = []\<rparr>"

definition demo_tokenizer :: whisper_tokenizer where
  "demo_tokenizer =
     \<lparr>vocab = [ascii_str ''a'' \<mapsto> 64, endoftext_str \<mapsto> 50257],
      inv_vocab = [64 \<mapsto> ascii_str ''a'', 50257 \<mapsto> endoftext_str],
      merges = []\<rparr>"

definition demo_encoder :: "unit encoder_session" where
  "demo_encoder =
     \<lparr>input_shape = Inr (Some [OtherDim, IntDim 80, IntDim 3000]),
      run_encoder = (\<lambda>mel. Inr ())\<rparr>"

definition demo_decoder :: "unit decoder_session" where
  "demo_decoder = \<lparr>run_decoder = (\<lambda>i toks h. Inr [0, 1])\<rparr>"

definition demo_env :: "unit load_env" where
  "demo_env =
     \<lparr>onnxruntime_installed = True, model_path_exists = True, decoder_path_exists = True,
      open_encoder = Inr demo_encoder, open_decoder = Inr demo_decoder,
      tokenizer_dir = empty_model_dir\<rparr>"

definition broken_vocab_env :: "unit load_env" where
  "broken_vocab_env =
     demo_env\<lparr>tokenizer_dir := \<lparr>vocab_json = Raises JSONDecodeError, merges_txt = Missing\<rparr>\<rparr>"

definition demo_asr :: "unit whisper_asr" where
  "demo_asr = snd (load demo_env init_asr)"

definition half_loaded_asr :: "unit whisper_asr" where
  "half_loaded_asr = snd (load broken_vocab_env init_asr)"

definition demo_run :: "nat \<Rightarrow> int list \<Rightarrow> error + real list" where
  "demo_run i toks = Inr [0, 1]"

section \<open>Properties of the tokenizer\<close>

lemma decode_loop_filter:
  "decode_loop tk True acc (filter (\<lambda>t. t < SOT_TOKEN) ids) = decode_loop tk True acc ids"
  by (induction ids arbitrary: acc) (auto simp: Let_def EOT_TOKEN_def SOT_TOKEN_def)

lemma decode_loop_eot:
  "decode_loop tk True acc (pre @ EOT_TOKEN # post) = decode_loop tk True acc pre"
  by (induction pre arbitrary: acc) (auto simp: Let_def EOT_TOKEN_def SOT_TOKEN_def)

text \<open>
  Claim C3.  With \<open>skip_special_tokens\<close> set, \<open>decode\<close> drops every id greater
  than or equal to the start-of-transcript id 50258: the text is that of the list with
  those ids removed.  It stops at the end-of-text id 50257: the ids after an end-of-text
  in the middle of the list contribute nothing.
\<close>

theorem decode_skip_special:
  "decode tk ids True = decode tk (filter (\<lambda>t. t < SOT_TOKEN) ids) True \<and>
   decode tk (pre @ EOT_TOKEN # post) True = decode tk pre True"
  by (simp add: decode_def decode_loop_filter decode_loop_eot)

lemma LANGUAGES_length: "length LANGUAGES = 99" by (simp add: LANGUAGES_def)

lemma LANGUAGES_keys_distinct: "distinct (map (\<lambda>(k, v). ascii_str k) LANGUAGES)"
  by (simp add: LANGUAGES_def ascii_str_def)

lemma languages_dict_card: "card (dom languages_dict) = 99"
proof -
  have "dom languages_dict = set (map (\<lambda>(k, v). ascii_str k) LANGUAGES)"
    by (force simp: languages_dict_def dom_map_of_conv_image_fst)
  then show ?thesis
    using distinct_card [OF LANGUAGES_keys_distinct] by (simp add: LANGUAGES_length)
qed

lemma languages_dict_range:
  assumes "languages_dict l = Some t"
  shows "50259 \<le> t \<and> t \<le> 50357"
proof -
  have "(l, t) \<in> set (map (\<lambda>(k, v). (ascii_str k, v)) LANGUAGES)"
    using assms map_of_SomeD [of "rev (map (\<lambda>(k, v). (ascii_str k, v)) LANGUAGES)" l t]
    by (simp add: languages_dict_def)
  then have "t \<in> snd ` set LANGUAGES" by force
  then show ?thesis by (simp add: LANGUAGES_def) linarith
qed

lemma languages_dict_en: "languages_dict (ascii_str ''en'') = Some 50259"
  by (simp add: languages_dict_def LANGUAGES_def ascii_str_def)

lemma get_language_token_total:
  "\<exists>t. get_language_token language = Inr t \<and> SOT_TOKEN \<le> t"
proof (cases "languages_dict language")
  case None
  then show ?thesis
    by (simp add: get_language_token_def languages_dict_en SOT_TOKEN_def)
next
  case (Some t)
  then show ?thesis
    using languages_dict_range [OF Some]
    by (simp add: get_language_token_def languages_dict_en SOT_TOKEN_def)
qed

lemma decode_loop_all_special:
  "filter (\<lambda>t. t < SOT_TOKEN) ids = [] \<Longrightarrow> decode_loop tk True acc ids = acc"
  using decode_loop_filter [of tk acc ids] by simp

text \<open>
  Claim C7.  For every language code (and every task and timestamp flag) the decoder
  seed is built without error, none of its tokens is below the start-of-transcript id,
  and decoding it with \<open>skip_special_tokens\<close> set yields the empty string.
\<close>

theorem decode_seed_empty:
  "\<exists>seed. build_decoder_input language task no_timestamps = Inr seed \<and>
          filter (\<lambda>t. t < SOT_TOKEN) seed = [] \<and>
          decode tk seed True = []"
proof -
  obtain t where t: "get_language_token language = Inr t" "SOT_TOKEN \<le> t"
    using get_language_token_total by blast
  define seed where "seed = [SOT_TOKEN] @ [t]
     @ (if task = ascii_str ''translate'' then [TRANSLATE_TOKEN] else [TRANSCRIBE_TOKEN])
     @ (if no_timestamps then [NO_TIMESTAMPS_TOKEN] else [])"
  have b: "build_decoder_input language task no_timestamps = Inr seed"
    by (simp add: build_decoder_input_def t seed_def)
  have f: "filter (\<lambda>t. t < SOT_TOKEN) seed = []"
    using t(2)
    by (simp add: seed_def SOT_TOKEN_def TRANSLATE_TOKEN_def TRANSCRIBE_TOKEN_def
        NO_TIMESTAMPS_TOKEN_def)
  have "decode tk seed True = []"
    by (simp add: decode_def decode_loop_all_special [OF f] py_replace_def py_strip_def)
  with b f show ?thesis by blast
qed

text \<open>
  Claim C5 as stated fails: the language table does not have 100 entries.
\<close>

theorem language_table_size_counterexample:
  "card (dom languages_dict) \<noteq> 100"
  by (simp add: languages_dict_card)

text \<open>
  Claim C5, amended.  The language table has exactly 99 entries, English has the id
  50259, and for every code that is not in the table \<open>get_language_token\<close> returns
  50259 and raises nothing.
\<close>

theorem language_table_lookup:
  "card (dom languages_dict) = 99 \<and>
   languages_dict (ascii_str ''en'') = Some 50259 \<and>
   (\<forall>code. languages_dict code = None \<longrightarrow> get_language_token code = Inr 50259)"
  by (simp add: languages_dict_card languages_dict_en get_language_token_def)

text \<open>
  The amended claim at the code \<open>xx\<close>, which is not in the table.
\<close>

theorem language_table_lookup_witness:
  "languages_dict (ascii_str ''xx'') = None \<and> get_language_token (ascii_str ''xx'') = Inr 50259"
proof -
  have h: "languages_dict (ascii_str ''xx'') = None"
    by (simp add: languages_dict_def LANGUAGES_def ascii_str_def)
  with language_table_lookup show ?thesis by blast
qed

text \<open>
  Claim C6 as stated fails: with the empty vocabulary that a missing \<open>vocab.json\<close>
  leaves, the character \<open>a\<close> is absent and is encoded as 0, not as the end-of-text id.
\<close>

theorem encode_unknown_counterexample:
  "load_tokenizer empty_model_dir = Inr empty_tokenizer \<and>
   vocab empty_tokenizer (ascii_str ''a'') = None \<and>
   encode empty_tokenizer (ascii_str ''a'') = [0] \<and>
   encode empty_tokenizer (ascii_str ''a'') \<noteq> [EOT_TOKEN]"
  by (simp add: load_tokenizer_def empty_model_dir_def empty_tokenizer_def encode_def
      ascii_str_def EOT_TOKEN_def)

text \<open>
  Claim C6, amended.  \<open>encode\<close> maps each character on its own through the vocabulary
  (one id per character, the encoding of a concatenation is the concatenation of the
  encodings); a character absent from the vocabulary is mapped to the id the vocabulary
  gives to the string \<open><|endoftext|>\<close>, or to 0 when the vocabulary has no such entry.
  \<open>encode\<close> is total: it raises nothing.
\<close>

theorem encode_per_character:
  "encode tk [] = [] \<and>
   encode tk (xs @ ys) = encode tk xs @ encode tk ys \<and>
   length (encode tk text) = length text \<and>
   (vocab tk [c] = Some t \<longrightarrow> encode tk [c] = [t]) \<and>
   (vocab tk [c] = None \<longrightarrow>
      encode tk [c] = [case vocab tk endoftext_str of Some e \<Rightarrow> e | None \<Rightarrow> 0])"
  by (simp add: encode_def)

text \<open>
  The amended claim on a vocabulary that knows \<open>a\<close> and the end-of-text string.
\<close>

theorem encode_per_character_witness:
  "vocab demo_tokenizer (ascii_str ''a'') = Some 64 \<and>
   encode demo_tokenizer (ascii_str ''a'') = [64] \<and>
   vocab demo_tokenizer (ascii_str ''b'') = None \<and>
   encode demo_tokenizer (ascii_str ''b'') = [50257]"
proof -
  have a: "vocab demo_tokenizer [97] = Some 64"
    by (simp add: demo_tokenizer_def ascii_str_def endoftext_str_def)
  have b: "vocab demo_tokenizer [98] = None"
    by (simp add: demo_tokenizer_def ascii_str_def endoftext_str_def)
  have e: "vocab demo_tokenizer endoftext_str = Some 50257"
    by (simp add: demo_tokenizer_def)
  from a b e encode_per_character [of demo_tokenizer "[]" "[]" "[]" 97 64]
    encode_per_character [of demo_tokenizer "[]" "[]" "[]" 98 0]
  show ?thesis by (simp add: ascii_str_def)
qed

section \<open>Properties of feature extraction\<close>

lemma hz_to_mel_zero: "hz_to_mel 0 = 0"
  by (simp add: hz_to_mel_def)

lemma hz_to_mel_nonneg: "0 \<le> hz \<Longrightarrow> 0 \<le> hz_to_mel hz"
  by (simp add: hz_to_mel_def)

lemma mel_to_hz_bounds:
  assumes "0 \<le> m" and "m \<le> hz_to_mel hz" and "0 \<le> hz"
  shows "0 \<le> mel_to_hz m \<and> mel_to_hz m \<le> hz"
proof -
  have lo: "1 \<le> (10::real) powr (m / 2595)"
    using assms(1) by (simp add: ge_one_powr_ge_zero)
  have "m / 2595 \<le> log 10 (1 + hz / 700)"
    using assms(2) by (simp add: hz_to_mel_def)
  then have "(10::real) powr (m / 2595) \<le> 10 powr (log 10 (1 + hz / 700))"
    by (simp add: powr_mono)
  also have "\<dots> = 1 + hz / 700"
    using assms(3) by (simp add: powr_log_cancel)
  finally have hi: "(10::real) powr (m / 2595) \<le> 1 + hz / 700" .
  from lo hi show ?thesis by (simp add: mel_to_hz_def)
qed

lemma linspace_length: "length (linspace a b n) = n"
  by (simp add: linspace_def)

lemma linspace_nth_bounds:
  assumes "a \<le> b" and "i < n"
  shows "a \<le> linspace a b n ! i \<and> linspace a b n ! i \<le> b"
proof -
  have n1: "real i \<le> real (n - 1)" using assms(2) by simp
  have npos: "0 < n" using assms(2) by simp
  have v: "linspace a b n ! i = a + real i * ((b - a) / real (n - 1))"
    using assms(2) by (simp add: linspace_def)
  have d: "0 \<le> b - a" using assms(1) by simp
  show ?thesis
  proof (cases "n = 1")
    case True
    then show ?thesis using v assms by simp
  next
    case False
    then have p: "0 < real (n - 1)" using npos by simp
    have "real i * ((b - a) / real (n - 1)) \<le> real (n - 1) * ((b - a) / real (n - 1))"
      using n1 d p by (intro mult_right_mono) simp_all
    also have "\<dots> = b - a" using p by simp
    finally have hi: "real i * ((b - a) / real (n - 1)) \<le> b - a" .
    have lo: "0 \<le> real i * ((b - a) / real (n - 1))" using d p by simp
    from lo hi v show ?thesis by simp
  qed
qed

lemma mel_bins_length: "length (mel_bins nfft nmels) = nmels + 2"
  by (simp add: mel_bins_def Let_def linspace_length)

lemma mel_bins_bounds:
  assumes "i < n_mels + 2"
  shows "0 \<le> mel_bins n_fft n_mels ! i \<and> mel_bins n_fft n_mels ! i \<le> 200"
proof -
  define m where "m = linspace (hz_to_mel 0) (hz_to_mel (real sample_rate / 2)) (n_mels + 2) ! i"
  have le: "hz_to_mel 0 \<le> hz_to_mel (real sample_rate / 2)"
    using hz_to_mel_nonneg [of "real sample_rate / 2"] by (simp add: hz_to_mel_zero)
  have mb: "0 \<le> m \<and> m \<le> hz_to_mel (real sample_rate / 2)"
    using linspace_nth_bounds [OF le assms] by (simp add: m_def hz_to_mel_zero)
  have fb: "0 \<le> mel_to_hz m \<and> mel_to_hz m \<le> real sample_rate / 2"
    using mel_to_hz_bounds [of m "real sample_rate / 2"] mb by simp
  have b: "mel_bins n_fft n_mels ! i = \<lfloor>real (n_fft + 1) * mel_to_hz m / real sample_rate\<rfloor>"
    using assms by (simp add: mel_bins_def Let_def linspace_length m_def)
  have lo: "0 \<le> real (n_fft + 1) * mel_to_hz m / real sample_rate"
    using fb by simp
  have "real (n_fft + 1) * mel_to_hz m / real sample_rate < 201"
    using fb by (simp add: n_fft_def sample_rate_def)
  then have hi: "\<lfloor>real (n_fft + 1) * mel_to_hz m / real sample_rate\<rfloor> < 201"
    by (simp add: floor_less_iff)
  from lo hi b show ?thesis by simp
qed

lemma set_item_ok:
  "0 \<le> j \<Longrightarrow> j < int (length row) \<Longrightarrow> set_item row j v = Inr (row[nat j := v])"
  by (simp add: set_item_def)

lemma fill_ok:
  "\<forall>j\<in>set js. 0 \<le> j \<and> j < int (length row) \<Longrightarrow>
   \<exists>row'. fill f js row = Inr row' \<and> length row' = length row"
proof (induction js arbitrary: row)
  case Nil
  then show ?case by simp
next
  case (Cons j js)
  then have j: "0 \<le> j" "j < int (length row)" by simp_all
  have "\<forall>k\<in>set js. 0 \<le> k \<and> k < int (length (row[nat j := f j]))"
    using Cons.prems by simp
  from Cons.IH [OF this] show ?case
    by (simp add: set_item_ok [OF j])
qed

lemma py_range_set: "set (py_range a b) = {j. a \<le> j \<and> j < b}"
  by (auto simp: py_range_def)

lemma filterbank_row_ok:
  assumes "i < n_mels"
  shows "\<exists>row. filterbank_row (mel_bins n_fft n_mels) n_fft i = Inr row \<and> length row = 201"
proof -
  let ?bins = "mel_bins n_fft n_mels"
  have l: "0 \<le> ?bins ! i" and c: "0 \<le> ?bins ! (i + 1)" "?bins ! (i + 1) \<le> 200"
    and r: "?bins ! (i + 2) \<le> 200"
    using assms mel_bins_bounds [of i] mel_bins_bounds [of "i + 1"] mel_bins_bounds [of "i + 2"]
    by simp_all
  let ?z = "replicate (n_fft div 2 + 1) (0::real)"
  have z: "length ?z = 201" by (simp add: n_fft_def)
  have "\<forall>j\<in>set (py_range (?bins ! i) (?bins ! (i + 1))). 0 \<le> j \<and> j < int (length ?z)"
    using l c z by (auto simp: py_range_set)
  from fill_ok [OF this] obtain row1 where
    r1: "fill (\<lambda>j. real_of_int (j - ?bins ! i) / real_of_int (?bins ! (i + 1) - ?bins ! i))
           (py_range (?bins ! i) (?bins ! (i + 1))) ?z = Inr row1"
    and l1: "length row1 = 201"
    using z by metis
  have "\<forall>j\<in>set (py_range (?bins ! (i + 1)) (?bins ! (i + 2))). 0 \<le> j \<and> j < int (length row1)"
    using c r l1 by (auto simp: py_range_set)
  from fill_ok [OF this] obtain row2 where
    r2: "fill (\<lambda>j. real_of_int (?bins ! (i + 2) - j) / real_of_int (?bins ! (i + 2) - ?bins ! (i + 1)))
           (py_range (?bins ! (i + 1)) (?bins ! (i + 2))) row1 = Inr row2"
    and l2: "length row2 = 201"
    using l1 by metis
  show ?thesis
    using r1 r2 l2 by (simp add: filterbank_row_def Let_def)
qed

lemma all_rows_ok:
  "\<forall>r\<in>set rs. \<exists>x. r = Inr x \<and> P x \<Longrightarrow>
   \<exists>xs. all_rows rs = Inr xs \<and> length xs = length rs \<and> (\<forall>x\<in>set xs. P x)"
proof (induction rs)
  case Nil
  then show ?case by simp
next
  case (Cons r rs)
  then obtain x where x: "r = Inr x" "P x" by auto
  from Cons obtain xs where xs: "all_rows rs = Inr xs" "length xs = length rs" "\<forall>x\<in>set xs. P x"
    by auto
  show ?case using x xs by simp
qed

lemma create_mel_filterbank_ok:
  "\<exists>fb. create_mel_filterbank n_fft n_mels = Inr fb \<and> length fb = 80 \<and>
        (\<forall>row\<in>set fb. length row = 201)"
proof -
  have "\<forall>r\<in>set (map (filterbank_row (mel_bins n_fft n_mels) n_fft) [0..<n_mels]).
          \<exists>x. r = Inr x \<and> length x = 201"
    using filterbank_row_ok by auto
  from all_rows_ok [OF this] show ?thesis
    by (simp add: create_mel_filterbank_def n_mels_def)
qed

lemma ncols_uniform: "M \<noteq> [] \<Longrightarrow> \<forall>row\<in>set M. length row = c \<Longrightarrow> ncols M = c"
  by (cases M) (simp_all add: ncols_def)

lemma pad_or_trim_length: "length (pad_or_trim audio) = 480000"
  by (simp add: pad_or_trim_def sample_rate_def Let_def)

lemma pad_or_trim_eq:
  "pad_or_trim audio = take 480000 audio @ replicate (480000 - length audio) 0"
  by (simp add: pad_or_trim_def sample_rate_def Let_def)

lemma n_frames_value:
  "1 + (int (length (pad_or_trim audio)) - int n_fft) div int hop_length = 2998"
  by (simp add: pad_or_trim_length n_fft_def hop_length_def)

lemma matmul_shape:
  assumes "ncols A = length B"
  shows "\<exists>C. matmul A B = Inr C \<and> length C = length A \<and> (\<forall>row\<in>set C. length row = ncols B)"
  using assms by (simp add: matmul_def)

lemma array_max_ok: "concat M \<noteq> [] \<Longrightarrow> \<exists>m. array_max M = Inr m"
  by (simp add: array_max_def Let_def)

lemma concat_nonempty:
  "M \<noteq> [] \<Longrightarrow> \<forall>row\<in>set M. length row = c \<Longrightarrow> 0 < c \<Longrightarrow> concat M \<noteq> []"
  by (cases M) auto

lemma compute_mel_spectrogram_shape:
  "\<exists>mel. compute_mel_spectrogram audio = Inr mel \<and> length mel = 80 \<and>
         (\<forall>row\<in>set mel. length row = 2998)"
proof -
  define a where "a = pad_or_trim audio"
  define power where
    "power = map (map (\<lambda>z. (cmod z)\<^sup>2))
       (map (\<lambda>k. map (\<lambda>i. stft_column a i ! k) [0..<nat 2998]) [0..<n_fft div 2 + 1])"
  have pl: "length power = 201" by (simp add: power_def n_fft_def)
  have pr: "\<forall>row\<in>set power. length row = 2998" by (auto simp: power_def)
  have pne: "power \<noteq> []" using pl by auto
  have pc: "ncols power = 2998" using ncols_uniform [OF pne pr] .
  obtain fb where fb: "create_mel_filterbank n_fft n_mels = Inr fb" "length fb = 80"
    "\<forall>row\<in>set fb. length row = 201"
    using create_mel_filterbank_ok by blast
  have fne: "fb \<noteq> []" using fb(2) by auto
  have "ncols fb = length power" using ncols_uniform [OF fne fb(3)] pl by simp
  from matmul_shape [OF this] obtain mel_spec where
    ms: "matmul fb power = Inr mel_spec" "length mel_spec = 80"
    "\<forall>row\<in>set mel_spec. length row = 2998"
    using fb(2) pc by auto
  define log_mel where "log_mel = map (map (\<lambda>x. log 10 (max x (1 / 10 ^ 10)))) mel_spec"
  have ll: "length log_mel = 80" by (simp add: log_mel_def ms(2))
  have lr: "\<forall>row\<in>set log_mel. length row = 2998" using ms(3) by (auto simp: log_mel_def)
  have lne: "log_mel \<noteq> []" using ll by auto
  obtain m where m: "array_max log_mel = Inr m"
    using array_max_ok [OF concat_nonempty [OF lne lr]] by auto
  define res where "res = map (map (\<lambda>x. (max x (m - 8) + 4) / 4)) log_mel"
  have r1: "length res = 80" by (simp add: res_def ll)
  have r2: "\<forall>row\<in>set res. length row = 2998" using lr by (auto simp: res_def)
  have "compute_mel_spectrogram audio = Inr res"
    unfolding compute_mel_spectrogram_def Let_def n_frames_value
    using fb(1) ms(1) m
    by (simp add: a_def power_def log_mel_def res_def)
  with r1 r2 show ?thesis by blast
qed

lemma demo_asr_eq:
  "demo_asr = \<lparr>encoder_session = Some demo_encoder, decoder_session = Some demo_decoder,
               tokenizer = Some empty_tokenizer, expected_frames = Some 3000\<rparr>"
  by (simp add: demo_asr_def load_def demo_env_def init_asr_def load_tokenizer_def
      empty_model_dir_def empty_tokenizer_def probe_frames_def demo_encoder_def Let_def)

lemma half_loaded_asr_eq:
  "half_loaded_asr = \<lparr>encoder_session = Some demo_encoder, decoder_session = Some demo_decoder,
               tokenizer = None, expected_frames = None\<rparr>"
  by (simp add: half_loaded_asr_def broken_vocab_env_def load_def demo_env_def init_asr_def
      load_tokenizer_def Let_def)

lemma map_length_uniform:
  "\<forall>row\<in>set M. length row = c \<Longrightarrow> map length M = replicate (length M) c"
  by (induction M) simp_all

lemma fit_frames_rows:
  assumes "M \<noteq> []" and "\<forall>row\<in>set M. length row = c" and "0 < e"
  shows "fit_frames e M = map (\<lambda>row. take (nat e) (row @ replicate (nat e - length row) 0)) M"
proof -
  have nc: "ncols M = c" using ncols_uniform [OF assms(1,2)] .
  consider "int c < e" | "int c > e" | "int c = e" by linarith
  then show ?thesis
  proof cases
    case 1
    then have "nat (e - int c) = nat e - c" by simp
    with 1 assms(2) show ?thesis
      by (simp add: fit_frames_def nc Let_def)
  next
    case 2
    with assms(2,3) show ?thesis
      by (simp add: fit_frames_def nc Let_def slice_to_def)
  next
    case 3
    with assms(2,3) have "map (\<lambda>row. take (nat e) (row @ replicate (nat e - length row) 0)) M = M"
      by (simp add: map_idI)
    with 3 show ?thesis by (simp add: fit_frames_def nc Let_def)
  qed
qed

text \<open>
  Claim C10.  For every waveform \<open>_compute_mel_spectrogram\<close> returns, without an
  exception, an array of 80 rows of exactly 2998 frames, which is
  \<open>1 + (480000 - 400) div 160\<close> and less than 3000; with 3000 expected frames the
  adjustment of \<open>transcribe\<close> appends two zero columns to every row and cuts nothing.
\<close>

theorem mel_frames_before_fit:
  "\<exists>mel. compute_mel_spectrogram audio = Inr mel \<and>
         map length mel = replicate 80 2998 \<and>
         (2998::int) = 1 + (480000 - 400) div 160 \<and>
         (2998::int) < 3000 \<and>
         fit_frames 3000 mel = map (\<lambda>row. row @ [0, 0]) mel"
proof -
  obtain mel where mel: "compute_mel_spectrogram audio = Inr mel" "length mel = 80"
    "\<forall>row\<in>set mel. length row = 2998"
    using compute_mel_spectrogram_shape by blast
  have ne: "mel \<noteq> []" using mel(2) by auto
  have s: "map length mel = replicate 80 2998"
    using map_length_uniform [OF mel(3)] mel(2) by simp
  have "replicate (nat (3000 - 2998)) (0::real) = [0, 0]"
    by (simp add: numeral_2_eq_2)
  then have "fit_frames 3000 mel = map (\<lambda>row. row @ [0, 0]) mel"
    by (simp add: fit_frames_def Let_def ncols_uniform [OF ne mel(3)])
  with mel(1) s show ?thesis by simp
qed

text \<open>
  Claim C1.  For every waveform, of any length, the waveform is zero-padded on the right
  or cut to 480000 samples, the spectrogram is computed without an exception, and the
  array given to the encoder has 80 rows of exactly \<open>expected\<close> columns, each row being
  the spectrogram row zero-padded or cut to that length.  \<open>expected\<close> is the frame count
  fixed at load time, 3000 when none is declared; a tensor dimension is positive.
\<close>

theorem encoder_features_shape:
  assumes "0 < expected asr"
  shows "\<exists>mel feats.
           length (pad_or_trim audio) = 30 * 16000 \<and>
           pad_or_trim audio = take 480000 audio @ replicate (480000 - length audio) 0 \<and>
           compute_mel_spectrogram audio = Inr mel \<and>
           encoder_features asr audio = Inr feats \<and>
           feats = map (\<lambda>row. take (nat (expected asr))
                                 (row @ replicate (nat (expected asr) - length row) 0)) mel \<and>
           map length feats = replicate 80 (nat (expected asr))"
proof -
  obtain mel where mel: "compute_mel_spectrogram audio = Inr mel" "length mel = 80"
    "\<forall>row\<in>set mel. length row = 2998"
    using compute_mel_spectrogram_shape by blast
  have ne: "mel \<noteq> []" using mel(2) by auto
  define feats where "feats = fit_frames (expected asr) mel"
  have f: "feats = map (\<lambda>row. take (nat (expected asr))
                                 (row @ replicate (nat (expected asr) - length row) 0)) mel"
    unfolding feats_def using fit_frames_rows [OF ne mel(3) assms] .
  have "\<forall>row\<in>set feats. length row = nat (expected asr)"
    using mel(3) by (auto simp: f)
  from map_length_uniform [OF this] have s: "map length feats = replicate 80 (nat (expected asr))"
    using mel(2) by (simp add: f)
  have e: "encoder_features asr audio = Inr feats"
    by (simp add: encoder_features_def mel(1) feats_def)
  show ?thesis
    using mel(1) e f s pad_or_trim_length [of audio] pad_or_trim_eq [of audio] by simp
qed

text \<open>
  The claim on a three-sample waveform and the engine loaded with 3000 frames.
\<close>

theorem encoder_features_shape_witness:
  "0 < expected demo_asr \<and>
   (\<exists>mel feats.
           length (pad_or_trim [1, 2, 3]) = 30 * 16000 \<and>
           pad_or_trim [1, 2, 3] = take 480000 [1, 2, 3] @ replicate (480000 - length [1, 2, 3::real]) 0 \<and>
           compute_mel_spectrogram [1, 2, 3] = Inr mel \<and>
           encoder_features demo_asr [1, 2, 3] = Inr feats \<and>
           feats = map (\<lambda>row. take (nat (expected demo_asr))
                                 (row @ replicate (nat (expected demo_asr) - length row) 0)) mel \<and>
           map length feats = replicate 80 3000)"
proof -
  have h: "expected demo_asr = 3000" by (simp add: expected_def demo_asr_eq)
  then have p: "0 < expected demo_asr" by simp
  from encoder_features_shape [OF p, of "[1, 2, 3]"] p h show ?thesis by simp
qed

section \<open>Properties of decoding and transcription\<close>

lemma greedy_step_appends:
  "greedy_step run i st = Some st' \<Longrightarrow>
   \<exists>t. t \<noteq> EOT_TOKEN \<and> tokens st' = tokens st @ [t] \<and>
       generated_tokens st' = generated_tokens st @ [t]"
  by (auto simp: greedy_step_def split: sum.splits if_splits)

lemma greedy_loop_length:
  "length (generated_tokens (greedy_loop run i n st)) \<le> length (generated_tokens st) + n"
proof (induction n arbitrary: i st)
  case 0
  then show ?case by simp
next
  case (Suc n)
  show ?case
  proof (cases "greedy_step run i st")
    case None
    then show ?thesis by simp
  next
    case (Some st')
    from greedy_step_appends [OF Some]
    have "length (generated_tokens st') = Suc (length (generated_tokens st))" by auto
    with Suc.IH [of "Suc i" st'] Some show ?thesis by simp
  qed
qed

lemma greedy_loop_never_stops:
  "\<forall>j st. greedy_step run j st \<noteq> None \<Longrightarrow>
   length (generated_tokens (greedy_loop run i n st)) = length (generated_tokens st) + n"
proof (induction n arbitrary: i st)
  case 0
  then show ?case by simp
next
  case (Suc n)
  from Suc.prems have "greedy_step run i st \<noteq> None" by blast
  then obtain st' where s: "greedy_step run i st = Some st'" by auto
  from greedy_step_appends [OF s]
  have "length (generated_tokens st') = Suc (length (generated_tokens st))" by auto
  with Suc.IH [OF Suc.prems, of "Suc i" st'] s show ?case by simp
qed

lemma build_decoder_input_ok:
  "\<exists>seed. build_decoder_input language task no_timestamps = Inr seed"
proof -
  obtain t where "get_language_token language = Inr t"
    using get_language_token_total by blast
  then show ?thesis by (simp add: build_decoder_input_def)
qed

lemma decode_with_decoder_total:
  "\<exists>r. decode_with_decoder asr h language =
        (case tokenizer asr of None \<Rightarrow> Inl AttributeError | Some tk \<Rightarrow> Inr r)"
proof (cases "tokenizer asr")
  case None
  then show ?thesis by (simp add: decode_with_decoder_def)
next
  case (Some tk)
  obtain seed where "build_decoder_input language (ascii_str ''transcribe'') True = Inr seed"
    using build_decoder_input_ok by blast
  with Some show ?thesis by (simp add: decode_with_decoder_def Let_def)
qed

text \<open>
  Claim C2.  The decoding loop is a total function of the decoder's answers: whatever
  the decoder returns at each call, logits or an exception, and also when no answer ever
  selects the end-of-text token, the loop ends after at most 50 iterations with at most
  50 generated tokens, and \<open>_decode_with_decoder\<close> returns its pair (or, without a
  tokenizer, raises before the loop).
\<close>

theorem greedy_decoding_bounded:
  "length (generated_tokens
             (greedy_loop run 0 max_tokens \<lparr>tokens = seed, generated_tokens = []\<rparr>)) \<le> 50 \<and>
   length (greedy_generate asr h seed) \<le> 50 \<and>
   (\<exists>r. decode_with_decoder asr h language =
        (case tokenizer asr of None \<Rightarrow> Inl AttributeError | Some tk \<Rightarrow> Inr r))"
proof -
  have a: "length (generated_tokens
             (greedy_loop run 0 max_tokens \<lparr>tokens = seed, generated_tokens = []\<rparr>)) \<le> 50"
    for run :: "nat \<Rightarrow> int list \<Rightarrow> error + real list"
    using greedy_loop_length [of run 0 max_tokens "\<lparr>tokens = seed, generated_tokens = []\<rparr>"]
    by (simp add: max_tokens_def)
  show ?thesis
    using a decode_with_decoder_total by (simp add: greedy_generate_def)
qed

lemma loop_state_at_invariant:
  "loop_state_at run \<lparr>tokens = seed, generated_tokens = []\<rparr> i = Some st \<Longrightarrow>
   tokens st = seed @ generated_tokens st \<and> length (generated_tokens st) = i \<and> i \<le> max_tokens"
proof (induction i arbitrary: st)
  case 0
  then show ?case by auto
next
  case (Suc i)
  then obtain st0 where p: "loop_state_at run \<lparr>tokens = seed, generated_tokens = []\<rparr> i = Some st0"
    and lt: "i < max_tokens" and s: "greedy_step run i st0 = Some st"
    by (auto split: option.splits if_splits)
  from Suc.IH [OF p] greedy_step_appends [OF s] lt show ?case by auto
qed

lemma loop_state_at_greedy_loop:
  "loop_state_at run st0 i = Some st \<Longrightarrow>
   greedy_loop run 0 max_tokens st0 = greedy_loop run i (max_tokens - i) st"
proof (induction i arbitrary: st)
  case 0
  then show ?case by simp
next
  case (Suc i)
  then obtain st1 where p: "loop_state_at run st0 i = Some st1"
    and lt: "i < max_tokens" and s: "greedy_step run i st1 = Some st"
    by (auto split: option.splits if_splits)
  from lt have "max_tokens - i = Suc (max_tokens - Suc i)" by simp
  with Suc.IH [OF p] s show ?case by simp
qed

lemma loop_state_at_continue:
  "loop_state_at run st0 i = Some st \<Longrightarrow>
   greedy_loop run 0 (i + n) st0 = greedy_loop run i n st"
proof (induction i arbitrary: st n)
  case 0
  then show ?case by simp
next
  case (Suc i)
  then obtain st1 where p: "loop_state_at run st0 i = Some st1"
    and s: "greedy_step run i st1 = Some st"
    by (auto split: option.splits if_splits)
  from Suc.IH [OF p, of "Suc n"] s show ?case by simp
qed

lemma greedy_loop_extends:
  "\<exists>ext. generated_tokens (greedy_loop run i n st) = generated_tokens st @ ext \<and>
         tokens (greedy_loop run i n st) = tokens st @ ext"
proof (induction n arbitrary: i st)
  case 0
  then show ?case by simp
next
  case (Suc n)
  show ?case
  proof (cases "greedy_step run i st")
    case None
    then show ?thesis by simp
  next
    case (Some st')
    from greedy_step_appends [OF Some] obtain t where
      t: "tokens st' = tokens st @ [t]" "generated_tokens st' = generated_tokens st @ [t]"
      by blast
    from Suc.IH [of "Suc i" st'] obtain ext where
      "generated_tokens (greedy_loop run (Suc i) n st') = generated_tokens st' @ ext"
      "tokens (greedy_loop run (Suc i) n st') = tokens st' @ ext"
      by blast
    with t Some show ?thesis by simp
  qed
qed

lemma greedy_loop_exit:
  "loop_state_at run st0 i = Some st \<Longrightarrow> i + n = max_tokens \<Longrightarrow>
   \<exists>k. i \<le> k \<and> k \<le> max_tokens \<and>
       loop_state_at run st0 k = Some (greedy_loop run i n st) \<and>
       (k = max_tokens \<or> greedy_step run k (greedy_loop run i n st) = None)"
proof (induction n arbitrary: i st)
  case 0
  then show ?case by auto
next
  case (Suc n)
  show ?case
  proof (cases "greedy_step run i st")
    case None
    with Suc.prems show ?thesis by auto
  next
    case (Some st')
    from Suc.prems have lt: "i < max_tokens" by simp
    with Suc.prems(1) Some have p: "loop_state_at run st0 (Suc i) = Some st'" by simp
    from Suc.prems have "Suc i + n = max_tokens" by simp
    from Suc.IH [OF p this] obtain k where
      "Suc i \<le> k" "k \<le> max_tokens"
      "loop_state_at run st0 k = Some (greedy_loop run (Suc i) n st')"
      "k = max_tokens \<or> greedy_step run k (greedy_loop run (Suc i) n st') = None"
      by blast
    with Some show ?thesis by (intro exI [of _ k]) simp
  qed
qed

lemma greedy_step_argument:
  "tokens st = seed @ generated_tokens st \<Longrightarrow>
   greedy_step run i st =
     (case run i (seed @ generated_tokens st) of
        Inl e \<Rightarrow> None
      | Inr logits \<Rightarrow>
          (case argmax logits of
             Inl e \<Rightarrow> None
           | Inr next_token \<Rightarrow>
               if next_token = EOT_TOKEN then None
               else Some \<lparr>tokens = seed @ generated_tokens st @ [next_token],
                          generated_tokens = generated_tokens st @ [next_token]\<rparr>))"
  by (simp add: greedy_step_def split: sum.splits)

lemma greedy_step_depends_on_argument:
  "tokens st = seed @ generated_tokens st \<Longrightarrow>
   greedy_step run i st = greedy_step (\<lambda>j toks. run j (seed @ generated_tokens st)) i st"
  by (simp add: greedy_step_def)

text \<open>
  Claim C9.  Let \<open>st\<close> be the state at the head of an iteration \<open>i\<close> that the loop
  reaches.  Then \<open>st\<close> is what the loop itself returns after \<open>i\<close> iterations; its
  working sequence is the seed followed by the \<open>i\<close> tokens generated so far; the
  decoder is called at iteration \<open>i\<close> with exactly that sequence, seed followed by the
  generated tokens, and the step depends on the decoder through this one answer only; a
  step that does not leave the loop appends one and the same token to both lists.  The
  state with which the whole loop is left is again such a head state, reached at the
  iteration where the loop ends: its working sequence is the seed followed by all
  generated tokens, and the tokens generated up to iteration \<open>i\<close> are its first \<open>i\<close>
  generated tokens, in the same order.  The same holds for the loop run for any number
  \<open>n\<close> of iterations.
\<close>

theorem greedy_loop_seed_prefix:
  assumes "loop_state_at run \<lparr>tokens = seed, generated_tokens = []\<rparr> i = Some st"
  shows "greedy_loop run 0 i \<lparr>tokens = seed, generated_tokens = []\<rparr> = st \<and>
   tokens st = seed @ generated_tokens st \<and>
   length (generated_tokens st) = i \<and>
   i \<le> max_tokens \<and>
   greedy_step run i st =
     (case run i (seed @ generated_tokens st) of
        Inl e \<Rightarrow> None
      | Inr logits \<Rightarrow>
          (case argmax logits of
             Inl e \<Rightarrow> None
           | Inr next_token \<Rightarrow>
               if next_token = EOT_TOKEN then None
               else Some \<lparr>tokens = seed @ generated_tokens st @ [next_token],
                          generated_tokens = generated_tokens st @ [next_token]\<rparr>)) \<and>
   greedy_step run i st = greedy_step (\<lambda>j toks. run j (seed @ generated_tokens st)) i st \<and>
   (\<forall>st'. greedy_step run i st = Some st' \<longrightarrow>
      (\<exists>t. tokens st' = tokens st @ [t] \<and> generated_tokens st' = generated_tokens st @ [t])) \<and>
   greedy_loop run 0 max_tokens \<lparr>tokens = seed, generated_tokens = []\<rparr>
     = greedy_loop run i (max_tokens - i) st \<and>
   tokens (greedy_loop run 0 max_tokens \<lparr>tokens = seed, generated_tokens = []\<rparr>)
     = seed @ generated_tokens (greedy_loop run 0 max_tokens \<lparr>tokens = seed, generated_tokens = []\<rparr>) \<and>
   take i (generated_tokens (greedy_loop run 0 max_tokens \<lparr>tokens = seed, generated_tokens = []\<rparr>))
     = generated_tokens st \<and>
   (\<exists>k. i \<le> k \<and> k \<le> max_tokens \<and>
        loop_state_at run \<lparr>tokens = seed, generated_tokens = []\<rparr> k
          = Some (greedy_loop run 0 max_tokens \<lparr>tokens = seed, generated_tokens = []\<rparr>) \<and>
        (k = max_tokens \<or>
         greedy_step run k (greedy_loop run 0 max_tokens \<lparr>tokens = seed, generated_tokens = []\<rparr>)
           = None)) \<and>
   tokens (greedy_loop run 0 n \<lparr>tokens = seed, generated_tokens = []\<rparr>)
     = seed @ generated_tokens (greedy_loop run 0 n \<lparr>tokens = seed, generated_tokens = []\<rparr>)"
proof -
  let ?init = "\<lparr>tokens = seed, generated_tokens = []\<rparr>"
  let ?fin = "greedy_loop run 0 max_tokens ?init"
  have inv: "tokens st = seed @ generated_tokens st" "length (generated_tokens st) = i"
    "i \<le> max_tokens"
    using loop_state_at_invariant [OF assms] by simp_all
  have c1: "greedy_loop run 0 i ?init = st"
    using loop_state_at_continue [OF assms, of 0] by simp
  have c5: "?fin = greedy_loop run i (max_tokens - i) st"
    using loop_state_at_continue [OF assms, of "max_tokens - i"] inv(3) by simp
  obtain ext where ext: "generated_tokens ?fin = generated_tokens st @ ext"
    "tokens ?fin = tokens st @ ext"
    using greedy_loop_extends [of run i "max_tokens - i" st] c5 by auto
  have c6: "tokens ?fin = seed @ generated_tokens ?fin" using ext inv(1) by simp
  have c7: "take i (generated_tokens ?fin) = generated_tokens st" using ext(1) inv(2) by simp
  have "i + (max_tokens - i) = max_tokens" using inv(3) by simp
  from greedy_loop_exit [OF assms this]
  have c8: "\<exists>k. i \<le> k \<and> k \<le> max_tokens \<and> loop_state_at run ?init k = Some ?fin \<and>
        (k = max_tokens \<or> greedy_step run k ?fin = None)"
    by (simp add: c5)
  have c9: "tokens (greedy_loop run 0 n ?init) = seed @ generated_tokens (greedy_loop run 0 n ?init)"
    using greedy_loop_extends [of run 0 n ?init] by auto
  have c4: "\<forall>st'. greedy_step run i st = Some st' \<longrightarrow>
      (\<exists>t. tokens st' = tokens st @ [t] \<and> generated_tokens st' = generated_tokens st @ [t])"
    using greedy_step_appends [of run i st] by blast
  show ?thesis
    using c1 inv greedy_step_argument [OF inv(1), of run i]
      greedy_step_depends_on_argument [OF inv(1), of run i] c4 c5 c6 c7 c8 c9
    by (intro conjI) assumption+
qed

text \<open>
  The claim at the second iteration of a decoder that always selects token 1.
\<close>

theorem greedy_loop_seed_prefix_witness:
  "loop_state_at demo_run \<lparr>tokens = [50258], generated_tokens = []\<rparr> (Suc 0)
     = Some \<lparr>tokens = [50258, 1], generated_tokens = [1]\<rparr> \<and>
   greedy_loop demo_run 0 (Suc 0) \<lparr>tokens = [50258], generated_tokens = []\<rparr>
     = \<lparr>tokens = [50258, 1], generated_tokens = [1]\<rparr> \<and>
   tokens \<lparr>tokens = [50258, 1], generated_tokens = [1]\<rparr>
     = [50258] @ generated_tokens \<lparr>tokens = [50258, 1], generated_tokens = [1]\<rparr> \<and>
   greedy_step demo_run (Suc 0) \<lparr>tokens = [50258, 1], generated_tokens = [1]\<rparr>
     = Some \<lparr>tokens = [50258, 1, 1], generated_tokens = [1, 1]\<rparr> \<and>
   take (Suc 0) (generated_tokens
        (greedy_loop demo_run 0 max_tokens \<lparr>tokens = [50258], generated_tokens = []\<rparr>)) = [1]"
proof -
  have h: "loop_state_at demo_run \<lparr>tokens = [50258], generated_tokens = []\<rparr> (Suc 0)
     = Some \<lparr>tokens = [50258, 1], generated_tokens = [1]\<rparr>"
    by (simp add: greedy_step_def demo_run_def argmax_def EOT_TOKEN_def max_tokens_def)
  have g: "greedy_step demo_run (Suc 0) \<lparr>tokens = [50258, 1], generated_tokens = [1]\<rparr>
     = Some \<lparr>tokens = [50258, 1, 1], generated_tokens = [1, 1]\<rparr>"
    by (simp add: greedy_step_def demo_run_def argmax_def EOT_TOKEN_def)
  from greedy_loop_seed_prefix [OF h, of 0]
  have a: "greedy_loop demo_run 0 (Suc 0) \<lparr>tokens = [50258], generated_tokens = []\<rparr>
             = \<lparr>tokens = [50258, 1], generated_tokens = [1]\<rparr>"
    and b: "tokens \<lparr>tokens = [50258, 1], generated_tokens = [1]\<rparr>
             = [50258] @ generated_tokens \<lparr>tokens = [50258, 1], generated_tokens = [1]\<rparr>"
    and c: "take (Suc 0) (generated_tokens
              (greedy_loop demo_run 0 max_tokens \<lparr>tokens = [50258], generated_tokens = []\<rparr>))
             = generated_tokens \<lparr>tokens = [50258, 1], generated_tokens = [1]\<rparr>"
    by blast+
  from c have c': "take (Suc 0) (generated_tokens
              (greedy_loop demo_run 0 max_tokens \<lparr>tokens = [50258], generated_tokens = []\<rparr>))
             = [1]"
    by simp
  from h a b g c' show ?thesis by (intro conjI) assumption+
qed

lemma transcribe_not_loaded:
  "encoder_session asr = None \<or> decoder_session asr = None \<Longrightarrow>
   transcribe asr audio_in language = Inl RuntimeError"
  by (auto simp: transcribe_def split: option.splits)

lemma transcribe_fresh: "transcribe init_asr audio_in language = Inl RuntimeError"
  by (simp add: transcribe_not_loaded init_asr_def)

lemma encoder_features_total: "\<exists>feats. encoder_features asr audio = Inr feats"
proof -
  obtain mel where "compute_mel_spectrogram audio = Inr mel"
    using compute_mel_spectrogram_shape by blast
  then show ?thesis by (simp add: encoder_features_def)
qed

lemma transcribe_loaded:
  assumes "encoder_session asr = Some enc" and "decoder_session asr = Some dec"
    and "to_array audio_in = Inr audio"
    and "encoder_features asr audio = Inr feats"
    and "run_encoder enc feats = Inr h"
  shows "transcribe asr audio_in language =
           (case decode_with_decoder asr h language of
              Inl e \<Rightarrow> Inl e
            | Inr (text_out, confidence) \<Rightarrow>
                Inr \<lparr>result_text = text_out, result_language = language,
                     result_confidence = confidence,
                     result_segments =
                       [\<lparr>seg_start = 0, seg_end = real (length audio) / real sample_rate,
                         seg_text = text_out, seg_confidence = confidence\<rparr>]\<rparr>)"
  using assms by (simp add: transcribe_def)

lemma demo_asr_sessions:
  "encoder_session demo_asr = Some demo_encoder" "decoder_session demo_asr = Some demo_decoder"
  by (simp_all add: demo_asr_eq)

lemma half_loaded_asr_sessions:
  "encoder_session half_loaded_asr = Some demo_encoder"
  "decoder_session half_loaded_asr = Some demo_decoder"
  by (simp_all add: half_loaded_asr_eq)

lemma to_array_Samples: "to_array (Samples audio) = Inr audio"
  by (simp add: to_array_def)

lemma demo_encoder_runs: "run_encoder demo_encoder feats = Inr ()"
  by (simp add: demo_encoder_def)

lemma transcribe_demo_ok: "\<not> isl (transcribe demo_asr (Samples audio) language)"
proof -
  obtain feats where f: "encoder_features demo_asr audio = Inr feats"
    using encoder_features_total by blast
  obtain r where r: "decode_with_decoder demo_asr () language = Inr r"
    using decode_with_decoder_total [of demo_asr "()" language] by (auto simp: demo_asr_eq)
  have "transcribe demo_asr (Samples audio) language =
           (case decode_with_decoder demo_asr () language of
              Inl e \<Rightarrow> Inl e
            | Inr (text_out, confidence) \<Rightarrow>
                Inr \<lparr>result_text = text_out, result_language = language,
                     result_confidence = confidence,
                     result_segments =
                       [\<lparr>seg_start = 0, seg_end = real (length audio) / real sample_rate,
                         seg_text = text_out, seg_confidence = confidence\<rparr>]\<rparr>)"
    using transcribe_loaded [OF demo_asr_sessions to_array_Samples f demo_encoder_runs] .
  then show ?thesis by (simp add: r split: prod.splits)
qed

lemma transcribe_odd_bytes: "transcribe demo_asr (Bytes [0]) language = Inl ValueError"
  by (simp add: transcribe_def demo_asr_eq to_array_def)

text \<open>
  Claim C8 on the code: a \<open>load\<close> that raises while it constructs the tokenizer (a
  \<open>vocab.json\<close> that does not parse) has already stored both sessions.  \<open>load\<close> has not
  succeeded, yet \<open>transcribe\<close> passes its guard, runs the encoder, and fails in
  \<open>_decode_with_decoder\<close> with \<open>AttributeError\<close> instead of the not-loaded
  \<open>RuntimeError\<close>.
\<close>

theorem transcribe_after_failed_load:
  "fst (load broken_vocab_env init_asr) = Inl JSONDecodeError \<and>
   transcribe (snd (load broken_vocab_env init_asr)) (Samples []) (ascii_str ''en'')
     = Inl AttributeError"
proof -
  have l: "fst (load broken_vocab_env init_asr) = Inl JSONDecodeError"
    by (simp add: broken_vocab_env_def load_def demo_env_def load_tokenizer_def Let_def)
  obtain feats where f: "encoder_features half_loaded_asr [] = Inr feats"
    using encoder_features_total by blast
  have "transcribe half_loaded_asr (Samples []) (ascii_str ''en'') =
           (case decode_with_decoder half_loaded_asr () (ascii_str ''en'') of
              Inl e \<Rightarrow> Inl e
            | Inr (text_out, confidence) \<Rightarrow>
                Inr \<lparr>result_text = text_out, result_language = ascii_str ''en'',
                     result_confidence = confidence,
                     result_segments =
                       [\<lparr>seg_start = 0, seg_end = real (length ([]::real list)) / real sample_rate,
                         seg_text = text_out, seg_confidence = confidence\<rparr>]\<rparr>)"
    using transcribe_loaded [OF half_loaded_asr_sessions to_array_Samples f demo_encoder_runs] .
  moreover have "decode_with_decoder half_loaded_asr () (ascii_str ''en'') = Inl AttributeError"
    by (simp add: decode_with_decoder_def half_loaded_asr_eq)
  ultimately show ?thesis using l by (simp add: half_loaded_asr_def)
qed

lemma transcribe_batch_all_ok:
  "list_all (\<lambda>a. \<not> isl (transcribe asr a language)) audio_list \<Longrightarrow>
   transcribe_batch asr audio_list language
     = Inr (map (\<lambda>a. projr (transcribe asr a language)) audio_list)"
  by (induction audio_list) (auto split: sum.splits)

lemma transcribe_batch_first_failure:
  "list_all (\<lambda>a. \<not> isl (transcribe asr a language)) pre \<Longrightarrow>
   transcribe asr a language = Inl e \<Longrightarrow>
   transcribe_batch asr (pre @ a # post) language = Inl e"
  by (induction pre) (auto split: sum.splits)

text \<open>
  Claim C4 as stated fails: in a batch of a buffer of one byte, for which
  \<open>transcribe\<close> raises \<open>ValueError\<close>, and a waveform that \<open>transcribe\<close> handles alone, the
  failure ends the batch and no result is returned.
\<close>

theorem transcribe_batch_abort_counterexample:
  "\<not> isl (transcribe demo_asr (Samples []) (ascii_str ''en'')) \<and>
   isl (transcribe demo_asr (Bytes [0]) (ascii_str ''en'')) \<and>
   transcribe_batch demo_asr [Bytes [0], Samples []] (ascii_str ''en'') = Inl ValueError"
  by (simp add: transcribe_demo_ok transcribe_odd_bytes)

text \<open>
  Claim C4, amended.  \<open>transcribe_batch\<close> passes the waveforms one after the other to
  \<open>transcribe\<close>: when every item succeeds, the result is the list of the items' own
  results in the order of the input; when an item fails after items that succeed, the
  batch fails with that item's exception, whatever follows it.
\<close>

theorem transcribe_batch_sequential:
  "(list_all (\<lambda>a. \<not> isl (transcribe asr a language)) audio_list \<longrightarrow>
      transcribe_batch asr audio_list language
        = Inr (map (\<lambda>a. projr (transcribe asr a language)) audio_list)) \<and>
   (list_all (\<lambda>a. \<not> isl (transcribe asr a language)) pre \<and>
    transcribe asr a language = Inl e \<longrightarrow>
      transcribe_batch asr (pre @ a # post) language = Inl e)"
  using transcribe_batch_all_ok transcribe_batch_first_failure by blast

text \<open>
  The amended claim on the loaded demonstration engine.
\<close>

theorem transcribe_batch_sequential_witness:
  "list_all (\<lambda>a. \<not> isl (transcribe demo_asr a (ascii_str ''en''))) [Samples [], Samples [1]] \<and>
   transcribe_batch demo_asr [Samples [], Samples [1]] (ascii_str ''en'')
     = Inr [projr (transcribe demo_asr (Samples []) (ascii_str ''en'')),
            projr (transcribe demo_asr (Samples [1]) (ascii_str ''en''))] \<and>
   transcribe demo_asr (Bytes [0]) (ascii_str ''en'') = Inl ValueError \<and>
   transcribe_batch demo_asr ([Samples [], Samples [1]] @ Bytes [0] # [Samples []]) (ascii_str ''en'')
     = Inl ValueError"
proof -
  have h1: "list_all (\<lambda>a. \<not> isl (transcribe demo_asr a (ascii_str ''en'')))
              [Samples [], Samples [1]]"
    by (simp add: transcribe_demo_ok)
  have h2: "transcribe demo_asr (Bytes [0]) (ascii_str ''en'') = Inl ValueError"
    by (rule transcribe_odd_bytes)
  from transcribe_batch_sequential
         [of demo_asr "ascii_str ''en''" "[Samples [], Samples [1]]" "[Samples [], Samples [1]]"
             "Bytes [0]" ValueError "[Samples []]"]
       h1 h2
  show ?thesis by simp
qed

end
